theory Spec2Isabelle
  imports
    Complex_Main
    "HOL-Library.Multiset"
    "HOL-Library.Char_ord"
    "HOL-Library.List_Lexorder"
begin

section \<open>Errors\<close>

text \<open>
  The Python exceptions that the three scripts can raise themselves or receive from the
  libraries they call. \<open>SystemExit2\<close> is what \<open>argparse\<close> does on a bad command line
  (\<open>parser.error\<close> exits with status 2).
\<close>

datatype py_error = ZeroDivisionError | ValueError | SystemExit2

section \<open>train.py: the training loop\<close>

subsection \<open>State and environment\<close>

text \<open>
  What \<open>train_model\<close> writes: the model's \<open>state_dict\<close> through \<open>torch.save\<close>, and the
  JSON sidecar through \<open>json.dump\<close>.
\<close>

datatype 'm file_content = StateDict 'm | Json "(string \<times> string) list"

text \<open>The lines printed by \<open>train_model\<close>, in the order of the \<open>print\<close> calls.\<close>

datatype log_line =
    DeviceLine
  | StepLine nat nat real real
  | EpochLine int real
  | EpochJson int real real
  | ValJson int real real real int
  | DoneLine real int

text \<open>
  The local variables of \<open>train_model\<close> that live across epochs, the mode flag of the
  model (\<open>model.train()\<close> / \<open>model.eval()\<close>), the directories the function creates and
  the files it writes. The images written by \<open>plot_slices_max_label\<close> (a helper outside
  the three scripts) are not part of \<open>files\<close>.
\<close>

record ('m, 'o) train_state =
  model :: 'm
  optimizer :: 'o
  training :: bool
  best_dice_score :: real
  best_dice_epoch :: int
  epoch_loss_values :: "real list"
  dice_values :: "real list"
  dirs :: "string list"
  files :: "string \<rightharpoonup> 'm file_content"
  stdout :: "log_line list"

text \<open>
  The libraries and the platform, as parameters: the batches that the training loader
  yields in a given epoch (it shuffles, so they depend on the epoch), the validation
  loader, the construction of the Adam optimizer, one optimisation step
  (\<open>zero_grad\<close>, forward, loss, \<open>backward\<close>, \<open>step\<close>; it returns the new parameters, the
  new optimizer state and \<open>loss.item()\<close>), the contribution of one validation batch to
  the metric buffers (sliding-window inference, post-transforms, \<open>dice_metric(...)\<close>,
  \<open>mean_iou_metric(...)\<close>), the two \<open>aggregate()\<close> calls, and
  \<open>valohai.outputs().path\<close>. The calls into the libraries are taken to return, and
  losses and scores are real numbers: an exception raised inside a library and a NaN
  are not modelled.
\<close>

record ('m, 'o, 'b, 'v, 's) env =
  train_loader :: "nat \<Rightarrow> 'b list"
  val_loader :: "'v list"
  adam :: "'m \<Rightarrow> real \<Rightarrow> 'o"
  train_step :: "'m \<Rightarrow> 'o \<Rightarrow> 'b \<Rightarrow> 'm \<times> 'o \<times> real"
  val_batch :: "'m \<Rightarrow> 'v \<Rightarrow> 's"
  aggregate_dice :: "'s list \<Rightarrow> real"
  aggregate_iou :: "'s list \<Rightarrow> real"
  outputs_path :: "string \<Rightarrow> string"

subsection \<open>The checkpoint selector (train.py, lines 176 to 190)\<close>

definition checkpoint_select ::
  "('m, 'o, 'b, 'v, 's) env \<Rightarrow> nat \<Rightarrow> real \<Rightarrow> ('m, 'o) train_state \<Rightarrow> ('m, 'o) train_state"
where
  "checkpoint_select E epoch dice_score st =
     (let st1 = st\<lparr>dice_values := dice_values st @ [dice_score]\<rparr> in
      if dice_score > best_dice_score st1 then
        (let model_output_path = outputs_path E ''model.pth'' in
         st1\<lparr>best_dice_score := dice_score,
             best_dice_epoch := int epoch + 1,
             files := ((files st1)(model_output_path \<mapsto> StateDict (model st1)))
                        (model_output_path @ ''.metadata.json'' \<mapsto>
                           Json [(''valohai.alias'', ''latest-model'')])\<rparr>)
      else st1)"

subsection \<open>One epoch (train.py, lines 95 to 199)\<close>

text \<open>
  The inner loop over the batches of one epoch. The accumulators \<open>epoch_loss\<close> and
  \<open>step\<close> are local to the epoch; \<open>n\<close> is \<open>len(train_loader)\<close>, which the progress line
  prints.
\<close>

fun train_batches ::
  "('m, 'o, 'b, 'v, 's) env \<Rightarrow> nat \<Rightarrow> 'b list \<Rightarrow> ('m, 'o) train_state \<times> real \<times> nat
     \<Rightarrow> ('m, 'o) train_state \<times> real \<times> nat"
where
  "train_batches E n [] acc = acc"
| "train_batches E n (batch_data # rest) (st, epoch_loss, step) =
     (let step' = step + 1;
          (m', o', loss) = train_step E (model st) (optimizer st) batch_data;
          epoch_loss' = epoch_loss + loss;
          st' = st\<lparr>model := m', optimizer := o',
                   stdout := stdout st @ [StepLine step' n loss (epoch_loss' / real step')]\<rparr>
      in train_batches E n rest (st', epoch_loss', step'))"

definition validation ::
  "('m, 'o, 'b, 'v, 's) env \<Rightarrow> nat \<Rightarrow> ('m, 'o) train_state \<Rightarrow> ('m, 'o) train_state"
where
  "validation E epoch st =
     (let st1 = st\<lparr>training := False\<rparr>;
          buf = map (val_batch E (model st1)) (val_loader E);
          dice_score = aggregate_dice E buf;
          mean_iou_score = aggregate_iou E buf;
          st2 = checkpoint_select E epoch dice_score st1
      in st2\<lparr>stdout := stdout st2 @
                [ValJson (int epoch + 1) dice_score mean_iou_score
                   (best_dice_score st2) (best_dice_epoch st2)]\<rparr>)"

text \<open>
  \<open>epoch_loss /= step\<close> divides two numbers that are both \<open>0\<close> when the loader yields no
  batch: Python raises \<open>ZeroDivisionError\<close>.
\<close>

definition run_epoch ::
  "('m, 'o, 'b, 'v, 's) env \<Rightarrow> nat \<Rightarrow> ('m, 'o) train_state \<Rightarrow> py_error + ('m, 'o) train_state"
where
  "run_epoch E epoch st =
     (let st0 = st\<lparr>training := True\<rparr>;
          batches = train_loader E epoch;
          (st1, epoch_loss, step) = train_batches E (length batches) batches (st0, 0, 0)
      in if step = 0 then Inl ZeroDivisionError
         else
           (let epoch_loss' = epoch_loss / real step;
                st2 = st1\<lparr>epoch_loss_values := epoch_loss_values st1 @ [epoch_loss'],
                         stdout := stdout st1 @
                           [EpochLine (int epoch + 1) epoch_loss',
                            EpochJson (int epoch + 1) epoch_loss' (1 - epoch_loss')]\<rparr>
            in if (epoch + 1) mod 5 = 0 then Inr (validation E epoch st2) else Inr st2))"

subsection \<open>The whole run (train.py, lines 70 to 206)\<close>

fun train_epochs ::
  "('m, 'o, 'b, 'v, 's) env \<Rightarrow> nat list \<Rightarrow> ('m, 'o) train_state \<Rightarrow> py_error + ('m, 'o) train_state"
where
  "train_epochs E [] st = Inr st"
| "train_epochs E (epoch # rest) st =
     (case run_epoch E epoch st of
        Inl err \<Rightarrow> Inl err
      | Inr st' \<Rightarrow> train_epochs E rest st')"

text \<open>
  The state before the first epoch. \<open>files0\<close> is what the output storage holds when the
  run starts. A freshly built network is in training mode.
\<close>

definition train_init ::
  "('m, 'o, 'b, 'v, 's) env \<Rightarrow> (string \<rightharpoonup> 'm file_content) \<Rightarrow> 'm \<Rightarrow> real \<Rightarrow> string
     \<Rightarrow> ('m, 'o) train_state"
where
  "train_init E files0 m learning_rate ckpt_path =
     \<lparr>model = m, optimizer = adam E m learning_rate, training = True,
      best_dice_score = - 1, best_dice_epoch = - 1,
      epoch_loss_values = [], dice_values = [],
      dirs = [ckpt_path], files = files0, stdout = [DeviceLine]\<rparr>"

text \<open>\<open>range(num_epochs)\<close> is empty for a negative \<open>num_epochs\<close>, as \<open>nat\<close> makes it.\<close>

definition train_model ::
  "('m, 'o, 'b, 'v, 's) env \<Rightarrow> (string \<rightharpoonup> 'm file_content) \<Rightarrow> 'm \<Rightarrow> int \<Rightarrow> real \<Rightarrow> string
     \<Rightarrow> py_error + ('m, 'o) train_state"
where
  "train_model E files0 m num_epochs learning_rate ckpt_path =
     (case train_epochs E [0..<nat num_epochs] (train_init E files0 m learning_rate ckpt_path) of
        Inl err \<Rightarrow> Inl err
      | Inr st \<Rightarrow>
          Inr (st\<lparr>stdout := stdout st @ [DoneLine (best_dice_score st) (best_dice_epoch st)]\<rparr>))"

subsection \<open>The selector on a sequence of scores\<close>



subsection \<open>A concrete environment\<close>

text \<open>
  One batch per epoch, a model that counts the optimisation steps taken, one validation
  batch whose Dice score is read off the model, and aggregation by the mean.
\<close>

definition demo_env :: "(nat, unit, real, unit, real) env" where
  "demo_env =
     \<lparr>train_loader = (\<lambda>epoch. [1 / 2]),
      val_loader = [()],
      adam = (\<lambda>m lr. ()),
      train_step = (\<lambda>m opt b. (Suc m, (), b)),
      val_batch = (\<lambda>m v.
         if m = 5 then 1 / 2 else if m = 10 then 7 / 10 else if m = 15 then 3 / 5
         else if m = 20 then 9 / 10 else if m = 25 then 4 / 5 else 0),
      aggregate_dice = (\<lambda>buf. sum_list buf / real (length buf)),
      aggregate_iou = (\<lambda>buf. sum_list buf / real (length buf) / 2),
      outputs_path = (\<lambda>name. ''/valohai/outputs/'' @ name)\<rparr>"


subsection \<open>What the run has saved\<close>

text \<open>
  The validation Dice score of a model, as \<open>validation\<close> computes it, and the score of the
  snapshot that the output storage holds at \<open>model.pth\<close>.
\<close>

definition dice_of :: "('m, 'o, 'b, 'v, 's) env \<Rightarrow> 'm \<Rightarrow> real" where
  "dice_of E m = aggregate_dice E (map (val_batch E m) (val_loader E))"

definition saved_dice :: "('m, 'o, 'b, 'v, 's) env \<Rightarrow> ('m, 'o) train_state \<Rightarrow> real option" where
  "saved_dice E st =
     (case files st (outputs_path E ''model.pth'') of
        Some (StateDict m) \<Rightarrow> Some (dice_of E m)
      | _ \<Rightarrow> None)"

text \<open>
  The invariant of the epoch loop after \<open>k\<close> epochs: one Dice value per fifth epoch; the
  best score is the maximum of the sentinel and the values seen; once a value has beaten
  the sentinel, the saved snapshot scores the best score and the best epoch is that of
  its earliest occurrence; until then nothing has been written; no other file is ever
  touched; the only directory made is the checkpoint directory.
\<close>

definition run_inv ::
  "('m, 'o, 'b, 'v, 's) env \<Rightarrow> (string \<rightharpoonup> 'm file_content) \<Rightarrow> string \<Rightarrow> nat
     \<Rightarrow> ('m, 'o) train_state \<Rightarrow> bool"
where
  "run_inv E files0 ckpt k st \<longleftrightarrow>
     length (dice_values st) = k div 5 \<and>
     best_dice_score st = Max (insert (- 1) (set (dice_values st))) \<and>
     (- 1 < best_dice_score st \<longrightarrow>
        saved_dice E st = Some (best_dice_score st) \<and>
        (\<exists>j < length (dice_values st).
           best_dice_epoch st = 5 * (int j + 1) \<and>
           dice_values st ! j = best_dice_score st \<and>
           (\<forall>i < j. dice_values st ! i < best_dice_score st))) \<and>
     (best_dice_score st = - 1 \<longrightarrow> files st = files0 \<and> best_dice_epoch st = - 1) \<and>
     (\<forall>p. p \<noteq> outputs_path E ''model.pth'' \<and>
          p \<noteq> outputs_path E ''model.pth'' @ ''.metadata.json'' \<longrightarrow> files st p = files0 p) \<and>
     dirs st = [ckpt]"


subsection \<open>The reported loss and the rest of the state\<close>

text \<open>
  \<open>report_loss_as g E\<close> is the environment \<open>E\<close> in which the number that a training step
  hands back for accumulation and printing (\<open>loss.item()\<close>) is \<open>g\<close> of the step's inputs
  instead; parameters and optimizer state are updated as in \<open>E\<close>. \<open>dynamics\<close> is the state
  without what is only reported: the list of epoch losses and the printed lines.
\<close>

definition report_loss_as ::
  "('m \<Rightarrow> 'o \<Rightarrow> 'b \<Rightarrow> real) \<Rightarrow> ('m, 'o, 'b, 'v, 's) env \<Rightarrow> ('m, 'o, 'b, 'v, 's) env"
where
  "report_loss_as g E =
     E\<lparr>train_step := (\<lambda>m opt b.
          case train_step E m opt b of (m', o', loss) \<Rightarrow> (m', o', g m opt b))\<rparr>"

definition dynamics ::
  "('m, 'o) train_state \<Rightarrow>
     'm \<times> 'o \<times> bool \<times> real \<times> int \<times> real list \<times> string list \<times> (string \<rightharpoonup> 'm file_content)"
where
  "dynamics st =
     (model st, optimizer st, training st, best_dice_score st, best_dice_epoch st,
      dice_values st, dirs st, files st)"


section \<open>The dataset partitioner\<close>

subsection \<open>Library functions\<close>

text \<open>
  \<open>os.path.join\<close> on two components, as \<open>posixpath\<close> has it: an absolute second
  component replaces the first, and a separator is inserted unless the first is empty
  or already ends in one.
\<close>

definition path_join :: "string \<Rightarrow> string \<Rightarrow> string" where
  "path_join a b =
     (if b \<noteq> [] \<and> hd b = CHR ''/'' then b
      else if a = [] \<or> last a = CHR ''/'' then a @ b
      else a @ ''/'' @ b)"




subsection \<open>train.py: \<open>get_data_loaders\<close>\<close>





subsection \<open>preprocess.py: \<open>preprocess_train_val\<close>, lines 80 to 98\<close>


subsection \<open>Concrete directories\<close>








section \<open>inference.py: the name of the prediction file\<close>

subsection \<open>Library functions\<close>

text \<open>\<open>str.endswith\<close>.\<close>

definition endswith :: "string \<Rightarrow> string \<Rightarrow> bool" where
  "endswith s suffix \<longleftrightarrow>
     length suffix \<le> length s \<and> drop (length s - length suffix) s = suffix"

text \<open>
  \<open>str.replace(old, new)\<close> for a non-empty \<open>old\<close>: every occurrence of \<open>old\<close>, found from
  left to right without overlap, is replaced. (With an empty \<open>old\<close> Python inserts \<open>new\<close>
  around every character; the script never does that, and the function below leaves the
  string as it is.)
\<close>

fun str_replace :: "string \<Rightarrow> string \<Rightarrow> string \<Rightarrow> string" where
  "str_replace old new [] = []"
| "str_replace old new (c # cs) =
     (if old \<noteq> [] \<and> take (length old) (c # cs) = old
      then new @ str_replace old new (drop (length old - 1) cs)
      else c # str_replace old new cs)"

text \<open>\<open>str.rfind\<close> of one character: the highest index where it occurs, or \<open>- 1\<close>.\<close>

fun rfind_from :: "char \<Rightarrow> string \<Rightarrow> nat \<Rightarrow> int" where
  "rfind_from c [] i = - 1"
| "rfind_from c (x # xs) i =
     (let r = rfind_from c xs (i + 1)
      in if r \<noteq> - 1 then r else if x = c then int i else - 1)"

definition rfind :: "string \<Rightarrow> char \<Rightarrow> int" where
  "rfind s c = rfind_from c s 0"

text \<open>\<open>os.path.basename\<close>: what follows the last separator.\<close>

definition basename :: "string \<Rightarrow> string" where
  "basename p = drop (nat (rfind p CHR ''/'' + 1)) p"

text \<open>
  \<open>os.path.splitext\<close>: the extension starts at the last dot, provided that dot comes
  after the last separator and after a character of the file name that is not a dot.
\<close>

definition splitext :: "string \<Rightarrow> string \<times> string" where
  "splitext p =
     (let sepIndex = rfind p CHR ''/'';
          dotIndex = rfind p CHR ''.''
      in if dotIndex > sepIndex then
           (let filenameIndex = sepIndex + 1
            in if list_ex (\<lambda>c. c \<noteq> CHR ''.'')
                    (take (nat (dotIndex - filenameIndex)) (drop (nat filenameIndex) p))
               then (take (nat dotIndex) p, drop (nat dotIndex) p)
               else (p, []))
         else (p, []))"

subsection \<open>\<open>run_inference\<close>, lines 101 to 108\<close>

definition pred_name :: "string \<Rightarrow> string" where
  "pred_name input_image_path =
     (let base_name = basename input_image_path
      in if endswith base_name ''.nii.gz''
         then str_replace ''.nii.gz'' ''_pred.nii.gz'' base_name
         else fst (splitext base_name) @ ''_pred.nii.gz'')"

definition pred_path :: "string \<Rightarrow> string \<Rightarrow> string" where
  "pred_path output_path input_image_path = path_join output_path (pred_name input_image_path)"

subsection \<open>The name as the specification words it\<close>

text \<open>
  The input's name without its extension (the whole of \<open>.nii.gz\<close> when the name ends in
  it, what \<open>splitext\<close> splits off otherwise), then the suffix \<open>_pred\<close>, then the extension
  of a compressed volume.
\<close>

definition strip_extension :: "string \<Rightarrow> string" where
  "strip_extension name =
     (if endswith name ''.nii.gz'' then take (length name - length ''.nii.gz'') name
      else fst (splitext name))"

definition spec_pred_name :: "string \<Rightarrow> string" where
  "spec_pred_name input_image_path =
     strip_extension (basename input_image_path) @ ''_pred'' @ ''.nii.gz''"

section \<open>The command lines\<close>

subsection \<open>Library functions\<close>







subsection \<open>\<open>argparse\<close>\<close>







subsection \<open>train.py: \<open>parse_args\<close>\<close>



subsection \<open>inference.py: \<open>parse_args\<close>\<close>



section \<open>The checkpoint selector\<close>







section \<open>The epoch loop\<close>

subsection \<open>What an epoch changes\<close>

lemma train_batches_frame:
  "train_batches E n bs (st, l, s) = (st', l', s') \<Longrightarrow>
     s' = s + length bs \<and>
     training st' = training st \<and>
     best_dice_score st' = best_dice_score st \<and>
     best_dice_epoch st' = best_dice_epoch st \<and>
     epoch_loss_values st' = epoch_loss_values st \<and>
     dice_values st' = dice_values st \<and>
     dirs st' = dirs st \<and>
     files st' = files st"
proof (induction bs arbitrary: st l s)
  case Nil
  then show ?case by simp
next
  case (Cons b bs)
  obtain m1 o1 loss where ts: "train_step E (model st) (optimizer st) b = (m1, o1, loss)"
    by (cases "train_step E (model st) (optimizer st) b") auto
  let ?st1 = "st\<lparr>model := m1, optimizer := o1,
      stdout := stdout st @ [StepLine (s + 1) n loss ((l + loss) / real (s + 1))]\<rparr>"
  from Cons.prems ts have "train_batches E n bs (?st1, l + loss, s + 1) = (st', l', s')"
    by (simp add: Let_def)
  from Cons.IH[OF this] show ?case by simp
qed


lemma run_epoch_result:
  assumes "run_epoch E e st = Inr st'"
  obtains st2 where
    "st' = (if Suc e mod 5 = 0 then validation E e st2 else st2)"
    "training st2" "best_dice_score st2 = best_dice_score st"
    "best_dice_epoch st2 = best_dice_epoch st" "dice_values st2 = dice_values st"
    "dirs st2 = dirs st" "files st2 = files st"
proof -
  obtain st1 l s where tb:
    "train_batches E (length (train_loader E e)) (train_loader E e) (st\<lparr>training := True\<rparr>, 0, 0) = (st1, l, s)"
    by (metis prod_cases3)
  note f = train_batches_frame[OF tb]
  let ?st2 = "st1\<lparr>epoch_loss_values := epoch_loss_values st1 @ [l / real s],
       stdout := stdout st1 @ [EpochLine (int e + 1) (l / real s),
         EpochJson (int e + 1) (l / real s) (1 - l / real s)]\<rparr>"
  from assms tb have "st' = (if Suc e mod 5 = 0 then validation E e ?st2 else ?st2)"
    by (auto simp: run_epoch_def Let_def split: if_splits)
  moreover from f have "training ?st2" "best_dice_score ?st2 = best_dice_score st"
    "best_dice_epoch ?st2 = best_dice_epoch st" "dice_values ?st2 = dice_values st"
    "dirs ?st2 = dirs st" "files ?st2 = files st"
    by simp_all
  ultimately show ?thesis using that by blast
qed

lemma train_epochs_append:
  "train_epochs E (xs @ ys) st =
     (case train_epochs E xs st of Inl err \<Rightarrow> Inl err | Inr st' \<Rightarrow> train_epochs E ys st')"
  by (induction xs arbitrary: st) (auto split: sum.splits)

lemma train_epochs_Suc:
  "train_epochs E [0..<Suc k] st =
     (case train_epochs E [0..<k] st of Inl err \<Rightarrow> Inl err | Inr st' \<Rightarrow> run_epoch E k st')"
  by (simp add: train_epochs_append split: sum.splits)

lemma validation_fields:
  "model (validation E e st) = model st"
  "optimizer (validation E e st) = optimizer st"
  "training (validation E e st) = False"
  "dirs (validation E e st) = dirs st"
  "epoch_loss_values (validation E e st) = epoch_loss_values st"
  "dice_values (validation E e st) = dice_values st @ [dice_of E (model st)]"
  "best_dice_score (validation E e st) = max (best_dice_score st) (dice_of E (model st))"
  by (simp_all add: validation_def checkpoint_select_def dice_of_def Let_def)

subsection \<open>The invariant\<close>

lemma run_inv_init: "run_inv E files0 ckpt 0 (train_init E files0 m lr ckpt)"
  by (simp add: run_inv_def train_init_def)

lemma Max_sentinel_snoc:
  "Max (insert (- 1) (set (xs @ [d]))) = max (Max (insert (- 1 :: real) (set xs))) d"
proof -
  have "insert (- 1) (set (xs @ [d])) = insert d (insert (- 1) (set xs))" by auto
  then show ?thesis by (simp add: max.commute)
qed

lemma below_best:
  assumes "b = Max (insert (- 1 :: real) (set xs))" "i < length xs"
  shows "xs ! i \<le> b"
  using assms by simp

lemma validation_inv:
  assumes inv: "run_inv E files0 ckpt k st" and k5: "Suc k mod 5 = 0"
  shows "run_inv E files0 ckpt (Suc k) (validation E k st)"
proof -
  let ?d = "dice_of E (model st)"
  let ?v = "validation E k st"
  let ?p = "outputs_path E ''model.pth''"
  from inv have len: "length (dice_values st) = k div 5"
    and best: "best_dice_score st = Max (insert (- 1) (set (dice_values st)))"
    and dirs: "dirs st = [ckpt]"
    and other: "\<And>p. p \<noteq> ?p \<Longrightarrow> p \<noteq> ?p @ ''.metadata.json'' \<Longrightarrow> files st p = files0 p"
    by (simp_all add: run_inv_def)
  from k5 have div: "Suc k div 5 = Suc (k div 5)" by presburger
  from k5 have ep: "int k + 1 = 5 * (int (k div 5) + 1)" by presburger
  have dv: "dice_values ?v = dice_values st @ [?d]" by (simp add: validation_fields)
  have bs: "best_dice_score ?v = max (best_dice_score st) ?d" by (simp add: validation_fields)
  have c1: "length (dice_values ?v) = Suc k div 5" using dv len div by simp
  have c2: "best_dice_score ?v = Max (insert (- 1) (set (dice_values ?v)))"
    unfolding dv Max_sentinel_snoc bs best ..
  have c6: "dirs ?v = [ckpt]" using dirs by (simp add: validation_fields)
  show ?thesis
  proof (cases "best_dice_score st < ?d")
    case True
    have f: "files ?v = ((files st)(?p \<mapsto> StateDict (model st)))
        (?p @ ''.metadata.json'' \<mapsto> Json [(''valohai.alias'', ''latest-model'')])"
      and e: "best_dice_epoch ?v = int k + 1" and b: "best_dice_score ?v = ?d"
      using True by (simp_all add: validation_def checkpoint_select_def dice_of_def Let_def)
    have sd: "saved_dice E ?v = Some ?d" by (simp add: saved_dice_def f)
    have gt: "- 1 < ?d" using True best by simp
    have prev: "\<forall>i < length (dice_values st). (dice_values st @ [?d]) ! i < ?d"
      using True below_best[OF best] by (auto simp: nth_append intro: le_less_trans)
    have j: "\<exists>j < length (dice_values ?v). best_dice_epoch ?v = 5 * (int j + 1) \<and>
        dice_values ?v ! j = best_dice_score ?v \<and> (\<forall>i < j. dice_values ?v ! i < best_dice_score ?v)"
      unfolding dv b e
    proof (intro exI[of _ "length (dice_values st)"] conjI)
      show "length (dice_values st) < length (dice_values st @ [?d])" by simp
      show "int k + 1 = 5 * (int (length (dice_values st)) + 1)" unfolding len by (rule ep)
      show "(dice_values st @ [?d]) ! length (dice_values st) = ?d" by simp
      show "\<forall>i < length (dice_values st). (dice_values st @ [?d]) ! i < ?d" by (rule prev)
    qed
    have c5: "\<forall>p. p \<noteq> ?p \<and> p \<noteq> ?p @ ''.metadata.json'' \<longrightarrow> files ?v p = files0 p"
      using other by (simp add: f)
    show ?thesis
      unfolding run_inv_def using c1 c2 c5 c6 sd j gt b by simp
  next
    case False
    have f: "files ?v = files st" and e: "best_dice_epoch ?v = best_dice_epoch st"
      and b: "best_dice_score ?v = best_dice_score st"
      using False by (simp_all add: validation_def checkpoint_select_def dice_of_def Let_def)
    have sd: "saved_dice E ?v = saved_dice E st" by (simp add: saved_dice_def f)
    have c3: "- 1 < best_dice_score ?v \<longrightarrow>
        saved_dice E ?v = Some (best_dice_score ?v) \<and>
        (\<exists>j < length (dice_values ?v). best_dice_epoch ?v = 5 * (int j + 1) \<and>
           dice_values ?v ! j = best_dice_score ?v \<and> (\<forall>i < j. dice_values ?v ! i < best_dice_score ?v))"
    proof
      assume "- 1 < best_dice_score ?v"
      then have pos: "- 1 < best_dice_score st" using b by simp
      from inv have "- 1 < best_dice_score st \<longrightarrow>
        saved_dice E st = Some (best_dice_score st) \<and>
        (\<exists>j < length (dice_values st).
           best_dice_epoch st = 5 * (int j + 1) \<and>
           dice_values st ! j = best_dice_score st \<and>
           (\<forall>i < j. dice_values st ! i < best_dice_score st))"
        unfolding run_inv_def by (elim conjE)
      with pos obtain j where s: "saved_dice E st = Some (best_dice_score st)"
        and j: "j < length (dice_values st)"
        "best_dice_epoch st = 5 * (int j + 1)" "dice_values st ! j = best_dice_score st"
        "\<forall>i < j. dice_values st ! i < best_dice_score st"
        by blast
      have "j < length (dice_values ?v) \<and> best_dice_epoch ?v = 5 * (int j + 1) \<and>
           dice_values ?v ! j = best_dice_score ?v \<and> (\<forall>i < j. dice_values ?v ! i < best_dice_score ?v)"
        unfolding dv b e using j by (simp add: nth_append)
      then show "saved_dice E ?v = Some (best_dice_score ?v) \<and>
        (\<exists>j < length (dice_values ?v). best_dice_epoch ?v = 5 * (int j + 1) \<and>
           dice_values ?v ! j = best_dice_score ?v \<and> (\<forall>i < j. dice_values ?v ! i < best_dice_score ?v))"
        using s sd b by auto
    qed
    have c4: "best_dice_score ?v = - 1 \<longrightarrow> files ?v = files0 \<and> best_dice_epoch ?v = - 1"
      using inv by (simp add: run_inv_def f e b)
    have c5: "\<forall>p. p \<noteq> ?p \<and> p \<noteq> ?p @ ''.metadata.json'' \<longrightarrow> files ?v p = files0 p"
      using other by (simp add: f)
    show ?thesis
      unfolding run_inv_def using c1 c2 c3 c4 c5 c6 by blast
  qed
qed

lemma run_epoch_inv:
  assumes inv: "run_inv E files0 ckpt k st" and r: "run_epoch E k st = Inr st'"
  shows "run_inv E files0 ckpt (Suc k) st'"
proof -
  from run_epoch_result[OF r] obtain st2 where
    st': "st' = (if Suc k mod 5 = 0 then validation E k st2 else st2)"
    and eqs: "best_dice_score st2 = best_dice_score st"
    "best_dice_epoch st2 = best_dice_epoch st" "dice_values st2 = dice_values st"
    "dirs st2 = dirs st" "files st2 = files st"
    by blast
  have sd: "saved_dice E st2 = saved_dice E st" by (simp add: saved_dice_def eqs)
  from inv have inv2: "run_inv E files0 ckpt k st2"
    unfolding run_inv_def sd eqs .
  show ?thesis
  proof (cases "Suc k mod 5 = 0")
    case True
    with st' validation_inv[OF inv2 True] show ?thesis by simp
  next
    case False
    then have d: "Suc k div 5 = k div 5" by presburger
    have "run_inv E files0 ckpt (Suc k) st2"
      unfolding run_inv_def d using inv2[unfolded run_inv_def] .
    with False st' show ?thesis by simp
  qed
qed

lemma train_epochs_inv:
  "train_epochs E [0..<k] (train_init E files0 m lr ckpt) = Inr st \<Longrightarrow> run_inv E files0 ckpt k st"
proof (induction k arbitrary: st)
  case 0
  then show ?case using run_inv_init[of E files0 ckpt m lr] by simp
next
  case (Suc k)
  from Suc.prems obtain st1 where
    a: "train_epochs E [0..<k] (train_init E files0 m lr ckpt) = Inr st1"
    and b: "run_epoch E k st1 = Inr st"
    unfolding train_epochs_Suc by (auto split: sum.splits)
  from run_epoch_inv[OF Suc.IH[OF a] b] show ?case .
qed



lemma Max_above_sentinel:
  assumes "xs \<noteq> []" "\<forall>d \<in> set xs. - 1 < (d::real)"
  shows "Max (insert (- 1) (set xs)) = Max (set xs)" "- 1 < Max (set xs)"
proof -
  have ne: "set xs \<noteq> {}" using assms(1) by simp
  then have "Max (set xs) \<in> set xs" by (intro Max_in) simp_all
  with assms(2) show gt: "- 1 < Max (set xs)" by blast
  have "Max (insert (- 1) (set xs)) = max (- 1) (Max (set xs))"
    using ne by (simp add: Max_insert)
  with gt show "Max (insert (- 1) (set xs)) = Max (set xs)" by simp
qed


subsection \<open>The concrete environment, evaluated\<close>



lemma demo_run_epoch:
  "run_epoch demo_env e st =
     Inr (let st2 = st\<lparr>training := True, model := Suc (model st), optimizer := (),
                 epoch_loss_values := epoch_loss_values st @ [1 / 2],
                 stdout := stdout st @ [StepLine 1 1 (1 / 2) (1 / 2), EpochLine (int e + 1) (1 / 2),
                    EpochJson (int e + 1) (1 / 2) (1 / 2)]\<rparr>
          in if Suc e mod 5 = 0 then validation demo_env e st2 else st2)"
  by (simp add: run_epoch_def demo_env_def Let_def)

lemma demo_dice_of:
  "dice_of demo_env m = (if m = 5 then 1 / 2 else if m = 10 then 7 / 10 else if m = 15 then 3 / 5
         else if m = 20 then 9 / 10 else if m = 25 then 4 / 5 else 0)"
  by (simp add: dice_of_def demo_env_def)


lemma demo_after_15:
  "map_sum id (\<lambda>st. (model st, dice_values st, best_dice_score st, best_dice_epoch st, saved_dice demo_env st))
     (train_epochs demo_env [0..<15] (train_init demo_env Map.empty 0 (1 / 10000) ''checkpoints''))
   = Inr (15, [1 / 2, 7 / 10, 3 / 5], 7 / 10, 10, Some (7 / 10))"
  by (simp add: upt_conv_Cons demo_run_epoch Let_def validation_def checkpoint_select_def
      train_init_def saved_dice_def demo_dice_of dice_of_def[symmetric])



section \<open>The saved checkpoint is the best so far\<close>

text \<open>
  Claim C2. Let \<open>st\<close> be the state of a training run after \<open>k\<close> of its epochs, with every
  validation Dice score seen so far above the sentinel. Then \<open>st\<close> lies on the run (the
  run continues from it), and: before the first validation pass nothing has been saved
  and the best score and epoch are still \<open>- 1\<close>; afterwards the snapshot at \<open>model.pth\<close>
  is the one whose Dice score is the highest seen so far, the best score in memory is
  that maximum, and the best epoch is the epoch of its earliest occurrence. The only
  files the run writes are \<open>model.pth\<close> and its sidecar, each overwritten in place. The
  last line a run prints reports the best score and the best epoch it holds.
\<close>

theorem persisted_checkpoint_is_best_so_far:
  fixes E :: "('m, 'o, 'b, 'v, 's) env"
  assumes run: "train_epochs E [0..<k] (train_init E files0 m lr ckpt) = Inr st"
    and k: "k \<le> nat num_epochs"
    and valid: "\<forall>d \<in> set (dice_values st). - 1 < d"
  shows "train_epochs E [0..<nat num_epochs] (train_init E files0 m lr ckpt) =
           train_epochs E [k..<nat num_epochs] st \<and>
    (if dice_values st = []
     then files st = files0 \<and> best_dice_score st = - 1 \<and> best_dice_epoch st = - 1
     else saved_dice E st = Some (Max (set (dice_values st))) \<and>
          best_dice_score st = Max (set (dice_values st)) \<and>
          5 dvd best_dice_epoch st \<and> 0 < best_dice_epoch st \<and>
          nat (best_dice_epoch st) div 5 \<le> length (dice_values st) \<and>
          dice_values st ! (nat (best_dice_epoch st) div 5 - 1) = Max (set (dice_values st)) \<and>
          (\<forall>i < nat (best_dice_epoch st) div 5 - 1. dice_values st ! i < Max (set (dice_values st)))) \<and>
    (\<forall>p. p \<noteq> outputs_path E ''model.pth'' \<and>
         p \<noteq> outputs_path E ''model.pth'' @ ''.metadata.json'' \<longrightarrow> files st p = files0 p) \<and>
    map_sum id (\<lambda>s. last (stdout s)) (train_model E files0 m num_epochs lr ckpt) =
    map_sum id (\<lambda>s. DoneLine (best_dice_score s) (best_dice_epoch s))
      (train_model E files0 m num_epochs lr ckpt)"
proof -
  let ?st0 = "train_init E files0 m lr ckpt"
  have report: "map_sum id (\<lambda>s. last (stdout s)) (train_model E files0 m num_epochs lr ckpt) =
    map_sum id (\<lambda>s. DoneLine (best_dice_score s) (best_dice_epoch s))
      (train_model E files0 m num_epochs lr ckpt)"
    by (cases "train_epochs E [0..<nat num_epochs] ?st0") (simp_all add: train_model_def)
  have "[0..<nat num_epochs] = [0..<k] @ [k..<nat num_epochs]"
    using k by (metis le_add_diff_inverse upt_add_eq_append zero_le)
  then have on_run: "train_epochs E [0..<nat num_epochs] ?st0 = train_epochs E [k..<nat num_epochs] st"
    using run by (simp add: train_epochs_append)
  note inv = train_epochs_inv[OF run, unfolded run_inv_def]
  from inv have best: "best_dice_score st = Max (insert (- 1) (set (dice_values st)))"
    by (elim conjE)
  from inv have none: "best_dice_score st = - 1 \<longrightarrow> files st = files0 \<and> best_dice_epoch st = - 1"
    by (elim conjE)
  from inv have some: "- 1 < best_dice_score st \<longrightarrow>
        saved_dice E st = Some (best_dice_score st) \<and>
        (\<exists>j < length (dice_values st).
           best_dice_epoch st = 5 * (int j + 1) \<and>
           dice_values st ! j = best_dice_score st \<and>
           (\<forall>i < j. dice_values st ! i < best_dice_score st))"
    by (elim conjE)
  from inv have other: "\<forall>p. p \<noteq> outputs_path E ''model.pth'' \<and>
         p \<noteq> outputs_path E ''model.pth'' @ ''.metadata.json'' \<longrightarrow> files st p = files0 p"
    by (elim conjE)
  have main: "if dice_values st = []
     then files st = files0 \<and> best_dice_score st = - 1 \<and> best_dice_epoch st = - 1
     else saved_dice E st = Some (Max (set (dice_values st))) \<and>
          best_dice_score st = Max (set (dice_values st)) \<and>
          5 dvd best_dice_epoch st \<and> 0 < best_dice_epoch st \<and>
          nat (best_dice_epoch st) div 5 \<le> length (dice_values st) \<and>
          dice_values st ! (nat (best_dice_epoch st) div 5 - 1) = Max (set (dice_values st)) \<and>
          (\<forall>i < nat (best_dice_epoch st) div 5 - 1. dice_values st ! i < Max (set (dice_values st)))"
  proof (cases "dice_values st = []")
    case True
    with best have "best_dice_score st = - 1" by simp
    with none True show ?thesis by simp
  next
    case False
    from Max_above_sentinel[OF False valid] best
    have b: "best_dice_score st = Max (set (dice_values st))" and gt: "- 1 < best_dice_score st"
      by simp_all
    from some gt obtain j where sd: "saved_dice E st = Some (best_dice_score st)"
      and j: "j < length (dice_values st)" "best_dice_epoch st = 5 * (int j + 1)"
        "dice_values st ! j = best_dice_score st" "\<forall>i < j. dice_values st ! i < best_dice_score st"
      by blast
    have n: "nat (best_dice_epoch st) = 5 * (j + 1)" using j(2) by simp
    then have idx: "nat (best_dice_epoch st) div 5 - 1 = j" by simp
    have d: "5 dvd best_dice_epoch st" "0 < best_dice_epoch st" using j(2) by simp_all
    have le: "nat (best_dice_epoch st) div 5 \<le> length (dice_values st)" using n j(1) by simp
    show ?thesis
      using False sd j(3,4) d le unfolding idx b[symmetric] by simp
  qed
  from on_run main other report show ?thesis by blast
qed

theorem persisted_checkpoint_is_best_so_far_witness:
  "saved_dice demo_env
     (projr (train_epochs demo_env [0..<15]
        (train_init demo_env Map.empty 0 (1 / 10000) ''checkpoints''))) = Some (7 / 10) \<and>
   best_dice_score
     (projr (train_epochs demo_env [0..<15]
        (train_init demo_env Map.empty 0 (1 / 10000) ''checkpoints''))) = 7 / 10 \<and>
   best_dice_epoch
     (projr (train_epochs demo_env [0..<15]
        (train_init demo_env Map.empty 0 (1 / 10000) ''checkpoints''))) = 10 \<and>
   dice_of demo_env (model
     (projr (train_epochs demo_env [0..<15]
        (train_init demo_env Map.empty 0 (1 / 10000) ''checkpoints'')))) = 3 / 5"
proof -
  let ?st0 = "train_init demo_env Map.empty 0 (1 / 10000) ''checkpoints''"
  let ?r = "train_epochs demo_env [0..<15] ?st0"
  obtain st where r: "?r = Inr st"
    using demo_after_15 by (cases ?r) auto
  then have st: "projr ?r = st" by simp
  from demo_after_15 r have dv: "dice_values st = [1 / 2, 7 / 10, 3 / 5]"
    and m: "model st = 15"
    by simp_all
  have k: "15 \<le> nat 20" by simp
  have valid: "\<forall>d \<in> set (dice_values st). - 1 < d" by (simp add: dv)
  note t = persisted_checkpoint_is_best_so_far[OF r k valid]
  have mx: "Max (set (dice_values st)) = 7 / 10" by (simp add: dv)
  from t have s: "saved_dice demo_env st = Some (7 / 10)"
    and b: "best_dice_score st = 7 / 10"
    unfolding mx by (simp_all add: dv)
  from demo_after_15 r have e: "best_dice_epoch st = 10" by simp
  have d: "dice_of demo_env (model st) = 3 / 5" by (simp add: m demo_dice_of)
  from s b e d show ?thesis unfolding st by blast
qed


section \<open>Validation cadence\<close>







section \<open>The running loss is reported only\<close>

lemma report_loss_as_fields:
  "train_loader (report_loss_as g E) = train_loader E"
  "val_loader (report_loss_as g E) = val_loader E"
  "adam (report_loss_as g E) = adam E"
  "val_batch (report_loss_as g E) = val_batch E"
  "aggregate_dice (report_loss_as g E) = aggregate_dice E"
  "aggregate_iou (report_loss_as g E) = aggregate_iou E"
  "outputs_path (report_loss_as g E) = outputs_path E"
  by (simp_all add: report_loss_as_def)

lemma report_loss_as_step:
  "train_step E m opt b = (m', o', loss) \<Longrightarrow>
     train_step (report_loss_as g E) m opt b = (m', o', g m opt b)"
  by (simp add: report_loss_as_def)

lemma train_batches_loss:
  assumes "dynamics a = dynamics b"
    and "train_batches (report_loss_as g E) n bs (a, l1, s) = (a', l1', s1)"
    and "train_batches E n bs (b, l2, s) = (b', l2', s2)"
  shows "dynamics a' = dynamics b' \<and> s1 = s2"
  using assms
proof (induction bs arbitrary: a b l1 l2 s)
  case Nil
  then show ?case by simp
next
  case (Cons x bs)
  obtain m1 o1 loss where ts: "train_step E (model b) (optimizer b) x = (m1, o1, loss)"
    by (metis prod_cases3)
  from Cons.prems(1) have mo: "model a = model b" "optimizer a = optimizer b"
    by (simp_all add: dynamics_def)
  note ts' = report_loss_as_step[OF ts, of g]
  let ?l = "g (model b) (optimizer b) x"
  let ?a1 = "a\<lparr>model := m1, optimizer := o1,
      stdout := stdout a @ [StepLine (s + 1) n ?l ((l1 + ?l) / real (s + 1))]\<rparr>"
  let ?b1 = "b\<lparr>model := m1, optimizer := o1,
      stdout := stdout b @ [StepLine (s + 1) n loss ((l2 + loss) / real (s + 1))]\<rparr>"
  have d: "dynamics ?a1 = dynamics ?b1"
    using Cons.prems(1) by (simp add: dynamics_def)
  from Cons.prems(2) ts' mo have ra:
    "train_batches (report_loss_as g E) n bs (?a1, l1 + ?l, s + 1) = (a', l1', s1)"
    by (simp add: Let_def)
  from Cons.prems(3) ts have rb: "train_batches E n bs (?b1, l2 + loss, s + 1) = (b', l2', s2)"
    by (simp add: Let_def)
  from Cons.IH[OF d ra rb] show ?case .
qed

lemma validation_loss:
  assumes "dynamics a = dynamics b"
  shows "dynamics (validation (report_loss_as g E) e a) = dynamics (validation E e b)"
  using assms
  by (simp add: validation_def checkpoint_select_def report_loss_as_fields dynamics_def Let_def)

lemma run_epoch_loss:
  assumes d: "dynamics a = dynamics b"
  shows "map_sum id dynamics (run_epoch (report_loss_as g E) e a) =
         map_sum id dynamics (run_epoch E e b)"
proof -
  let ?bs = "train_loader E e"
  obtain a1 l1 s1 where ta:
    "train_batches (report_loss_as g E) (length ?bs) ?bs (a\<lparr>training := True\<rparr>, 0, 0) = (a1, l1, s1)"
    by (metis prod_cases3)
  obtain b1 l2 s2 where tb:
    "train_batches E (length ?bs) ?bs (b\<lparr>training := True\<rparr>, 0, 0) = (b1, l2, s2)"
    by (metis prod_cases3)
  have d0: "dynamics (a\<lparr>training := True\<rparr>) = dynamics (b\<lparr>training := True\<rparr>)"
    using d by (simp add: dynamics_def)
  from train_batches_loss[OF d0 ta tb] have d1: "dynamics a1 = dynamics b1" and s: "s1 = s2"
    by simp_all
  let ?a2 = "a1\<lparr>epoch_loss_values := epoch_loss_values a1 @ [l1 / real s1],
       stdout := stdout a1 @ [EpochLine (int e + 1) (l1 / real s1),
         EpochJson (int e + 1) (l1 / real s1) (1 - l1 / real s1)]\<rparr>"
  let ?b2 = "b1\<lparr>epoch_loss_values := epoch_loss_values b1 @ [l2 / real s2],
       stdout := stdout b1 @ [EpochLine (int e + 1) (l2 / real s2),
         EpochJson (int e + 1) (l2 / real s2) (1 - l2 / real s2)]\<rparr>"
  have d2: "dynamics ?a2 = dynamics ?b2" using d1 by (simp add: dynamics_def)
  have ra: "run_epoch (report_loss_as g E) e a =
      (if s1 = 0 then Inl ZeroDivisionError
       else if Suc e mod 5 = 0 then Inr (validation (report_loss_as g E) e ?a2) else Inr ?a2)"
    using ta by (simp add: run_epoch_def report_loss_as_fields Let_def)
  have rb: "run_epoch E e b =
      (if s2 = 0 then Inl ZeroDivisionError
       else if Suc e mod 5 = 0 then Inr (validation E e ?b2) else Inr ?b2)"
    using tb by (simp add: run_epoch_def Let_def)
  show ?thesis
    unfolding ra rb using s d2 validation_loss[OF d2, of g E e] by simp
qed

lemma train_epochs_loss:
  "dynamics a = dynamics b \<Longrightarrow>
     map_sum id dynamics (train_epochs (report_loss_as g E) es a) =
     map_sum id dynamics (train_epochs E es b)"
proof (induction es arbitrary: a b)
  case Nil
  then show ?case by simp
next
  case (Cons e es)
  note r = run_epoch_loss[OF Cons.prems, of g E e]
  show ?case
  proof (cases "run_epoch E e b")
    case (Inl err)
    with r have "run_epoch (report_loss_as g E) e a = Inl err"
      by (cases "run_epoch (report_loss_as g E) e a") simp_all
    with Inl show ?thesis by simp
  next
    case (Inr b')
    with r obtain a' where a': "run_epoch (report_loss_as g E) e a = Inr a'"
      and d: "dynamics a' = dynamics b'"
      by (cases "run_epoch (report_loss_as g E) e a") simp_all
    from Cons.IH[OF d] a' Inr show ?thesis by simp
  qed
qed


text \<open>
  Claim C9. Whatever number is accumulated into the running loss of an epoch in place of
  the loss of each step, the run ends the same way (it raises the same error, or it
  returns) and with the same parameters, optimizer state, mode, best score, best epoch,
  validation scores, directories and saved files: the accumulated loss reaches only the
  list of epoch losses and the printed lines.
\<close>

theorem running_loss_is_observation_only:
  fixes E :: "('m, 'o, 'b, 'v, 's) env"
  shows "map_sum id dynamics (train_model (report_loss_as g E) files0 m num_epochs lr ckpt) =
         map_sum id dynamics (train_model E files0 m num_epochs lr ckpt)"
proof -
  let ?a = "train_init (report_loss_as g E) files0 m lr ckpt"
  let ?b = "train_init E files0 m lr ckpt"
  have "dynamics ?a = dynamics ?b"
    by (simp add: train_init_def dynamics_def report_loss_as_fields)
  note r = train_epochs_loss[OF this, of g E "[0..<nat num_epochs]"]
  show ?thesis
  proof (cases "train_epochs E [0..<nat num_epochs] ?b")
    case (Inl err)
    with r have "train_epochs (report_loss_as g E) [0..<nat num_epochs] ?a = Inl err"
      by (cases "train_epochs (report_loss_as g E) [0..<nat num_epochs] ?a") simp_all
    with Inl show ?thesis by (simp add: train_model_def)
  next
    case (Inr b')
    with r obtain a' where a': "train_epochs (report_loss_as g E) [0..<nat num_epochs] ?a = Inr a'"
      and d: "dynamics a' = dynamics b'"
      by (cases "train_epochs (report_loss_as g E) [0..<nat num_epochs] ?a") simp_all
    from d a' Inr show ?thesis by (simp add: train_model_def dynamics_def)
  qed
qed

section \<open>The checkpoint directory is made and not used\<close>











section \<open>The dataset partitioner\<close>

subsection \<open>The split\<close>







lemma partition_length:
  assumes "mset train + mset test = mset xs"
  shows "length train + length test = length xs"
proof -
  from assms have "mset (train @ test) = mset xs" by simp
  then show ?thesis by (metis length_append mset_eq_length)
qed














subsection \<open>The split of \<open>preprocess_train_val\<close>\<close>





subsection \<open>When the split fails\<close>








subsection \<open>The pairing\<close>




section \<open>The partition is exhaustive, disjoint and reproducible\<close>





section \<open>When the partitioner fails\<close>




section \<open>Listings are paired by position\<close>



section \<open>The name of the prediction file\<close>

text \<open>
  Where \<open>.nii.gz\<close> occurs in the file name at its end only, or not at its end at all, the
  name that lines 101 to 108 compute is the specified one.
\<close>

lemma str_replace_at_end:
  assumes "old \<noteq> []"
    and "\<forall>i < length stem. take (length old) (drop i (stem @ old)) \<noteq> old"
  shows "str_replace old new (stem @ old) = stem @ new"
  using assms(2)
proof (induction stem)
  case Nil
  from assms(1) obtain c cs where old: "old = c # cs" by (cases old) auto
  then show ?case by simp
next
  case (Cons x stem)
  from Cons.prems have "take (length old) (drop 0 ((x # stem) @ old)) \<noteq> old" by blast
  then have here: "take (length old) (x # stem @ old) \<noteq> old" by simp
  have "\<forall>i < length stem. take (length old) (drop i (stem @ old)) \<noteq> old"
  proof (intro allI impI)
    fix i assume "i < length stem"
    then have "Suc i < length (x # stem)" by simp
    with Cons.prems have "take (length old) (drop (Suc i) ((x # stem) @ old)) \<noteq> old" by blast
    then show "take (length old) (drop i (stem @ old)) \<noteq> old" by simp
  qed
  from Cons.IH[OF this] here show ?case by simp
qed

lemma endswith_split:
  "endswith s suffix \<Longrightarrow> s = take (length s - length suffix) s @ suffix"
  by (metis append_take_drop_id endswith_def)

lemma pred_name_as_specified:
  assumes "\<forall>i < length (basename p) - length ''.nii.gz''.
      take (length ''.nii.gz'') (drop i (basename p)) \<noteq> ''.nii.gz''"
  shows "pred_name p = spec_pred_name p"
proof (cases "endswith (basename p) ''.nii.gz''")
  case False
  then show ?thesis
    by (simp add: pred_name_def spec_pred_name_def strip_extension_def Let_def)
next
  case True
  let ?old = "''.nii.gz''"
  let ?stem = "take (length (basename p) - length ?old) (basename p)"
  from endswith_split[OF True] have b: "basename p = ?stem @ ?old" .
  from True have len: "length ?stem = length (basename p) - length ?old"
    by (simp add: endswith_def)
  have "\<forall>i < length ?stem. take (length ?old) (drop i (?stem @ ?old)) \<noteq> ?old"
    unfolding len b[symmetric] using assms .
  from str_replace_at_end[OF _ this, of "''_pred.nii.gz''"]
  have "str_replace ?old ''_pred.nii.gz'' (?stem @ ?old) = ?stem @ ''_pred.nii.gz''" by simp
  then have "str_replace ?old ''_pred.nii.gz'' (basename p) = ?stem @ ''_pred.nii.gz''"
    unfolding b[symmetric] .
  with True show ?thesis
    by (simp add: pred_name_def spec_pred_name_def strip_extension_def Let_def)
qed


text \<open>
  Claim C6. For \<open>case_01.nii.gz\<close> the name computed is \<open>case_01_pred.nii.gz\<close>. For a
  name in which \<open>.nii.gz\<close> occurs before its end as well, \<open>str.replace\<close> rewrites every
  occurrence, and the name computed is not the input's name with its extension stripped,
  \<open>_pred\<close> appended and the extension put back.
\<close>

theorem pred_name_replaces_every_occurrence:
  "pred_name ''case_01.nii.gz'' = ''case_01_pred.nii.gz'' \<and>
   pred_name ''case_01.nii.gz.nii.gz'' = ''case_01_pred.nii.gz_pred.nii.gz'' \<and>
   spec_pred_name ''case_01.nii.gz.nii.gz'' = ''case_01.nii.gz_pred.nii.gz''"
  by (simp add: pred_name_def spec_pred_name_def strip_extension_def basename_def rfind_def
      endswith_def)

section \<open>The command lines\<close>








end
